theory Spec2Isabelle
  imports Complex_Main
begin

section \<open>Review aggregation of the tour application\<close>

text \<open>
  The review model (\<^verbatim>\<open>reviewSchema\<close>) and the tour model (\<^verbatim>\<open>tourSchema\<close>) are
  Mongoose schemas. The embedding keeps the two collections in an explicit database
  state and writes every hook of the two schemas as a function on that state.

  A JavaScript \<^verbatim>\<open>Number\<close> and a number of the database are IEEE 754 doubles, and the
  arithmetic below is double arithmetic, rounded to the nearest double with ties to
  even. An \<^verbatim>\<open>ObjectId\<close> is a natural number. A field that may be absent is an
  \<open>option\<close>. The field \<^verbatim>\<open>createdAt\<close> and the tour fields that no hook reads or writes
  are left out.
\<close>

subsection \<open>Double arithmetic\<close>

text \<open>
  A double is a finite value, an infinity or \<^verbatim>\<open>NaN\<close>. A finite double is given by
  the rational number it stands for; the two zeros are one value (no operation here
  divides by a zero, so their sign never shows).
\<close>

datatype double = Fin rat | PInf | NInf | NaN

type_synonym objectId = nat
type_synonym number = double

text \<open>The number of binary digits of a positive integer.\<close>

function bits :: "int \<Rightarrow> int" where
  "bits n = (if n \<le> 0 then 0 else bits (n div 2) + 1)"
  by pat_completeness auto
termination
  by (relation "measure nat") auto

declare bits.simps [simp del]

text \<open>For a positive \<open>x\<close>, the exponent \<open>k\<close> with \<open>2 ^ k \<le> x < 2 ^ (k + 1)\<close>.\<close>

definition ilog2 :: "rat \<Rightarrow> int" where
  "ilog2 x = (if 1 \<le> x then bits \<lfloor>x\<rfloor> - 1 else - bits (\<lceil>1 / x\<rceil> - 1))"

definition pow2 :: "int \<Rightarrow> rat" where
  "pow2 k = (if 0 \<le> k then 2 ^ nat k else 1 / 2 ^ nat (- k))"

text \<open>The nearest integer, a tie to the even one.\<close>

definition half_even :: "rat \<Rightarrow> int" where
  "half_even q =
     (let f = \<lfloor>q\<rfloor>; r = q - of_int f
      in if r < 1 / 2 then f
         else if 1 / 2 < r then f + 1
         else if even f then f else f + 1)"

text \<open>
  The double nearest to a rational: 53 binary digits, the least spacing
  \<open>2 ^ (- 1074)\<close> of the subnormal numbers, and an infinity from \<open>2 ^ 1024\<close> on.
\<close>

definition rd :: "rat \<Rightarrow> double" where
  "rd x =
     (if x = 0 then Fin 0
      else
        let k = ilog2 \<bar>x\<bar>;
            e = max (k - 52) (- 1074);
            m = half_even (\<bar>x\<bar> / pow2 e)
        in if 1024 \<le> k \<or> (k = 1023 \<and> m = 9007199254740992)
           then (if x < 0 then NInf else PInf)
           else Fin ((if x < 0 then - 1 else 1) * of_int m * pow2 e))"

fun dneg :: "double \<Rightarrow> double" where
  "dneg (Fin a) = Fin (- a)"
| "dneg PInf = NInf"
| "dneg NInf = PInf"
| "dneg NaN = NaN"

text \<open>The operators \<^verbatim>\<open>+\<close>, \<^verbatim>\<open>*\<close> and \<^verbatim>\<open>/\<close> on doubles.\<close>

fun dadd :: "double \<Rightarrow> double \<Rightarrow> double" where
  "dadd (Fin a) (Fin b) = rd (a + b)"
| "dadd NaN y = NaN"
| "dadd x NaN = NaN"
| "dadd (Fin a) y = y"
| "dadd x (Fin b) = x"
| "dadd x y = (if x = y then x else NaN)"

fun dmul :: "double \<Rightarrow> double \<Rightarrow> double" where
  "dmul (Fin a) (Fin b) = rd (a * b)"
| "dmul NaN y = NaN"
| "dmul x NaN = NaN"
| "dmul (Fin a) y = (if a = 0 then NaN else if 0 < a then y else dneg y)"
| "dmul x (Fin b) = (if b = 0 then NaN else if 0 < b then x else dneg x)"
| "dmul x y = (if x = y then PInf else NInf)"

fun ddiv :: "double \<Rightarrow> double \<Rightarrow> double" where
  "ddiv (Fin a) (Fin b) =
     (if b = 0 then (if a = 0 then NaN else if 0 < a then PInf else NInf)
      else rd (a / b))"
| "ddiv NaN y = NaN"
| "ddiv x NaN = NaN"
| "ddiv (Fin a) y = Fin 0"
| "ddiv x (Fin b) = (if b < 0 then dneg x else x)"
| "ddiv x y = NaN"

text \<open>The comparison \<^verbatim>\<open><=\<close>, which is false at \<^verbatim>\<open>NaN\<close>.\<close>

fun dle :: "double \<Rightarrow> double \<Rightarrow> bool" where
  "dle (Fin a) (Fin b) = (a \<le> b)"
| "dle NaN y = False"
| "dle x NaN = False"
| "dle NInf y = True"
| "dle x PInf = True"
| "dle x y = False"

text \<open>
  \<^verbatim>\<open>Math.round\<close>: the nearest integer, a tie towards plus infinity. The integer
  nearest to a double is a double.
\<close>

fun Math_round :: "double \<Rightarrow> double" where
  "Math_round (Fin x) = Fin (of_int \<lfloor>x + 1 / 2\<rfloor>)"
| "Math_round x = x"

subsection \<open>Documents\<close>

text \<open>
  A value handed to a path of a new document: nothing (missing or \<^verbatim>\<open>null\<close>), a
  value that the type of the path casts to \<open>v\<close>, or a value that it cannot cast.
\<close>

datatype 'a raw = Absent | Castable 'a | Uncastable

text \<open>The plain object handed to \<^verbatim>\<open>Review.create\<close>.\<close>

record review_fields =
  f_review :: "string raw"
  f_rating :: "number raw"
  f_tour :: "objectId raw"
  f_user :: "objectId raw"

text \<open>
  A stored review. The paths \<^verbatim>\<open>review\<close>, \<^verbatim>\<open>tour\<close> and \<^verbatim>\<open>user\<close> are
  \<^verbatim>\<open>required\<close> in the schema; \<^verbatim>\<open>rating\<close> is not, so it stays optional.
\<close>

record review_doc =
  rid :: objectId
  review :: string
  rating :: "number option"
  tour :: objectId
  user :: objectId

text \<open>
  The paths of a tour that the review hooks touch, with the schema defaults
  \<^verbatim>\<open>ratingsAverage: 4.5\<close>, \<^verbatim>\<open>ratingsQuantity: 0\<close>, \<^verbatim>\<open>secretTour: false\<close>.
\<close>

record tour_doc =
  ratingsAverage :: number
  ratingsQuantity :: nat
  secretTour :: bool

definition default_tour :: tour_doc where
  "default_tour = \<lparr>ratingsAverage = Fin (9 / 2), ratingsQuantity = 0, secretTour = False\<rparr>"

text \<open>
  The \<^verbatim>\<open>errors\<close> object of a ValidationError has one entry for each failing path: a
  cast error, or the message of the validator that failed.
\<close>

datatype path_error = CastError | ValidatorError string

record validation_errors =
  e_review :: "path_error option"
  e_rating :: "path_error option"
  e_tour :: "path_error option"
  e_user :: "path_error option"

datatype error =
    ValidationError validation_errors
  | DuplicateKeyError
  | TypeError
  | StoreUnavailable

text \<open>
  The database: the review collection in natural order, the tour collection by
  \<^verbatim>\<open>_id\<close>, the arguments of the calls of \<^verbatim>\<open>calcAverageRatings\<close> so far, and the
  rejections of promises that nobody awaits (\<^verbatim>\<open>process.on('unhandledRejection')\<close>).
\<close>

record db =
  reviews :: "review_doc list"
  tours :: "objectId \<rightharpoonup> tour_doc"
  recomputes :: "objectId list"
  unhandledRejections :: "error list"

text \<open>
  An awaited store call may reject. Which call of one run of \<^verbatim>\<open>calcAverageRatings\<close>
  rejects, if any, is chosen by the environment.
\<close>

datatype fault = NoFault | AggregateFault | UpdateFault

subsection \<open>Schema validation of a review\<close>

text \<open>
  A value that cannot be cast fails its path with a cast error. \<^verbatim>\<open>required\<close> on a
  String path rejects a missing value and the empty string; \<^verbatim>\<open>required\<close> on an
  ObjectId path rejects a missing value. \<^verbatim>\<open>min\<close> and \<^verbatim>\<open>max\<close> accept a missing value
  and otherwise test \<^verbatim>\<open>v >= 1\<close> and \<^verbatim>\<open>v <= 5\<close>; \<^verbatim>\<open>NaN\<close> is not cast to a Number.
\<close>

definition check_review :: "string raw \<Rightarrow> path_error option" where
  "check_review v =
     (case v of
        Absent \<Rightarrow> Some (ValidatorError ''Review cannotbe empty'')
      | Uncastable \<Rightarrow> Some CastError
      | Castable txt \<Rightarrow>
          if txt = [] then Some (ValidatorError ''Review cannotbe empty'') else None)"

definition check_rating :: "number raw \<Rightarrow> path_error option" where
  "check_rating v =
     (case v of
        Absent \<Rightarrow> None
      | Uncastable \<Rightarrow> Some CastError
      | Castable x \<Rightarrow>
          if x = NaN then Some CastError
          else if \<not> dle (Fin 1) x then Some (ValidatorError ''A review must be greater than 1.0'')
          else if \<not> dle x (Fin 5) then Some (ValidatorError ''A review must be less than 5.0'')
          else None)"

definition check_ref :: "string \<Rightarrow> objectId raw \<Rightarrow> path_error option" where
  "check_ref msg v =
     (case v of
        Absent \<Rightarrow> Some (ValidatorError msg)
      | Uncastable \<Rightarrow> Some CastError
      | Castable i \<Rightarrow> None)"

definition validate :: "review_fields \<Rightarrow> validation_errors" where
  "validate inp =
     \<lparr>e_review = check_review (f_review inp),
      e_rating = check_rating (f_rating inp),
      e_tour = check_ref ''Review must belong to a tour'' (f_tour inp),
      e_user = check_ref ''Review must belong to a user'' (f_user inp)\<rparr>"

definition no_errors :: validation_errors where
  "no_errors = \<lparr>e_review = None, e_rating = None, e_tour = None, e_user = None\<rparr>"

text \<open>The document built from the fields, with the \<^verbatim>\<open>_id\<close> Mongoose gives it.\<close>

definition to_doc :: "objectId \<Rightarrow> review_fields \<Rightarrow> review_doc option" where
  "to_doc oid inp =
     (case f_review inp of
        Castable txt \<Rightarrow>
          (case f_tour inp of
             Castable t \<Rightarrow>
               (case f_user inp of
                  Castable u \<Rightarrow>
                    Some \<lparr>rid = oid, review = txt,
                          rating = (case f_rating inp of Castable x \<Rightarrow> Some x | _ \<Rightarrow> None),
                          tour = t, user = u\<rparr>
                | _ \<Rightarrow> None)
           | _ \<Rightarrow> None)
      | _ \<Rightarrow> None)"

text \<open>
  The unique indexes of the review collection: \<^verbatim>\<open>_id\<close>, and the compound index
  \<^verbatim>\<open>reviewSchema.index({ tour: 1, user: 1 }, { unique: true })\<close>.
\<close>

definition same_pair :: "review_doc \<Rightarrow> review_doc \<Rightarrow> bool" where
  "same_pair d r = (tour r = tour d \<and> user r = user d)"

definition duplicate_key :: "review_doc \<Rightarrow> review_doc list \<Rightarrow> bool" where
  "duplicate_key d rs = list_ex (\<lambda>r. rid r = rid d \<or> same_pair d r) rs"

subsection \<open>The aggregation\<close>

text \<open>
  \<^verbatim>\<open>$avg\<close> ignores the documents whose value is not numeric and is null without one.
  The accumulator belongs to the database; it is taken to add the doubles in the
  order of the documents and to divide the sum by their number.
\<close>

fun numeric :: "number option list \<Rightarrow> number list" where
  "numeric [] = []"
| "numeric (None # vs) = numeric vs"
| "numeric (Some x # vs) = x # numeric vs"

definition double_mean :: "number list \<Rightarrow> number" where
  "double_mean xs = ddiv (foldl dadd (Fin 0) xs) (rd (of_nat (length xs)))"

definition avg :: "number option list \<Rightarrow> number option" where
  "avg vs = (if numeric vs = [] then None else Some (double_mean (numeric vs)))"

record stat =
  group_id :: objectId
  nRating :: nat
  avgRating :: "number option"

text \<open>\<^verbatim>\<open>$match: { tour: tourId }\<close>, then \<^verbatim>\<open>$group\<close> by \<^verbatim>\<open>$tour\<close>: no group without a match.\<close>

definition aggregate :: "objectId \<Rightarrow> review_doc list \<Rightarrow> stat list" where
  "aggregate tourId rs =
     (let m = filter (\<lambda>r. tour r = tourId) rs
      in if m = [] then []
         else [\<lparr>group_id = tourId, nRating = length m, avgRating = avg (map rating m)\<rparr>])"

subsection \<open>The write to the tour\<close>

text \<open>In arithmetic JavaScript reads \<^verbatim>\<open>null\<close> as 0.\<close>

definition to_number :: "number option \<Rightarrow> number" where
  "to_number v = (case v of None \<Rightarrow> Fin 0 | Some x \<Rightarrow> x)"

text \<open>\<^verbatim>\<open>set: (val) => Math.round(val * 10) / 10\<close> on the path \<^verbatim>\<open>ratingsAverage\<close>.\<close>

definition set_ratingsAverage :: "number option \<Rightarrow> number" where
  "set_ratingsAverage val = ddiv (Math_round (dmul (to_number val) (Fin 10))) (Fin 10)"

text \<open>
  \<^verbatim>\<open>Tour.findByIdAndUpdate\<close> is a \<^verbatim>\<open>findOneAndUpdate\<close> query, so the hook
  \<^verbatim>\<open>tourSchema.pre(/^find/)\<close> adds \<^verbatim>\<open>secretTour: { $ne: true }\<close> to its filter. A
  query that matches no tour writes nothing. The setter of the path runs on the
  value; the \<^verbatim>\<open>min\<close> and \<^verbatim>\<open>max\<close> validators do not run on an update.
\<close>

definition Tour_findByIdAndUpdate ::
  "objectId \<Rightarrow> nat \<Rightarrow> number option \<Rightarrow> (objectId \<rightharpoonup> tour_doc) \<Rightarrow> (objectId \<rightharpoonup> tour_doc)" where
  "Tour_findByIdAndUpdate tourId q a ts =
     (case ts tourId of
        None \<Rightarrow> ts
      | Some d \<Rightarrow>
          if secretTour d then ts
          else ts(tourId \<mapsto> d\<lparr>ratingsQuantity := q, ratingsAverage := set_ratingsAverage a\<rparr>))"

text \<open>\<^verbatim>\<open>reviewSchema.statics.calcAverageRatings\<close>.\<close>

definition calcAverageRatings :: "fault \<Rightarrow> objectId \<Rightarrow> db \<Rightarrow> error option \<times> db" where
  "calcAverageRatings io tourId s =
     (let s0 = s\<lparr>recomputes := recomputes s @ [tourId]\<rparr>
      in if io = AggregateFault then (Some StoreUnavailable, s0)
         else
           let stats = aggregate tourId (reviews s0)
           in if io = UpdateFault then (Some StoreUnavailable, s0)
              else
                (case stats of
                   st # rest \<Rightarrow>
                     (None, s0\<lparr>tours :=
                        Tour_findByIdAndUpdate tourId (nRating st) (avgRating st) (tours s0)\<rparr>)
                 | [] \<Rightarrow>
                     (None, s0\<lparr>tours :=
                        Tour_findByIdAndUpdate tourId 0 (Some (Fin (9 / 2))) (tours s0)\<rparr>)))"

subsection \<open>Creating a review\<close>

text \<open>
  \<^verbatim>\<open>Review.create\<close> builds the document and saves it: validation, then the insert
  under the unique indexes, then \<^verbatim>\<open>reviewSchema.post('save')\<close>. The hook calls
  \<^verbatim>\<open>calcAverageRatings(this.tour)\<close> and neither awaits nor returns the promise, so
  the caller has its review whatever becomes of the call; a rejection is unhandled.
\<close>

definition post_save :: "fault \<Rightarrow> review_doc \<Rightarrow> db \<Rightarrow> db" where
  "post_save io doc s =
     (case calcAverageRatings io (tour doc) s of
        (None, s') \<Rightarrow> s'
      | (Some e, s') \<Rightarrow> s'\<lparr>unhandledRejections := unhandledRejections s' @ [e]\<rparr>)"

definition save :: "fault \<Rightarrow> objectId \<Rightarrow> review_fields \<Rightarrow> db \<Rightarrow> (error + review_doc) \<times> db" where
  "save io oid inp s =
     (if validate inp \<noteq> no_errors then (Inl (ValidationError (validate inp)), s)
      else
        (case to_doc oid inp of
           None \<Rightarrow> (Inl (ValidationError (validate inp)), s)
         | Some doc \<Rightarrow>
             if duplicate_key doc (reviews s) then (Inl DuplicateKeyError, s)
             else (Inr doc, post_save io doc (s\<lparr>reviews := reviews s @ [doc]\<rparr>))))"

subsection \<open>Updating and deleting a review by a filter\<close>

text \<open>
  A filter is a predicate on stored reviews; a query acts on the first match. The
  hook \<^verbatim>\<open>reviewSchema.pre(/^find/)\<close> populates the user of the documents that a query
  returns; it changes no stored document, and \<^verbatim>\<open>this.r.tour\<close> stays the reference.
\<close>

type_synonym filter = "review_doc \<Rightarrow> bool"

text \<open>The update document: the paths it sets.\<close>

record review_update =
  set_review :: "string option"
  set_rating :: "number option"
  set_tour :: "objectId option"
  set_user :: "objectId option"

definition apply_update :: "review_update \<Rightarrow> review_doc \<Rightarrow> review_doc" where
  "apply_update u d =
     d\<lparr>review := (case set_review u of None \<Rightarrow> review d | Some txt \<Rightarrow> txt),
       rating := (case set_rating u of None \<Rightarrow> rating d | Some x \<Rightarrow> Some x),
       tour := (case set_tour u of None \<Rightarrow> tour d | Some t \<Rightarrow> t),
       user := (case set_user u of None \<Rightarrow> user d | Some w \<Rightarrow> w)\<rparr>"

fun update_first :: "('a \<Rightarrow> bool) \<Rightarrow> ('a \<Rightarrow> 'a) \<Rightarrow> 'a list \<Rightarrow> 'a list" where
  "update_first f g [] = []"
| "update_first f g (x # xs) = (if f x then g x # xs else x # update_first f g xs)"

fun delete_first :: "('a \<Rightarrow> bool) \<Rightarrow> 'a list \<Rightarrow> 'a list" where
  "delete_first f [] = []"
| "delete_first f (x # xs) = (if f x then xs else x # delete_first f xs)"

text \<open>
  \<^verbatim>\<open>reviewSchema.pre(/^findOneAnd/)\<close>: \<^verbatim>\<open>this.r = await this.findOne()\<close>, the first
  review that matches the filter of the query, or \<^verbatim>\<open>null\<close>.
\<close>

definition pre_findOneAnd :: "filter \<Rightarrow> db \<Rightarrow> review_doc option" where
  "pre_findOneAnd f s = find f (reviews s)"

text \<open>
  \<^verbatim>\<open>reviewSchema.post(/^findOneAnd/)\<close>:
  \<^verbatim>\<open>await this.r.constructor.calcAverageRatings(this.r.tour)\<close>. Reading a property of
  \<^verbatim>\<open>null\<close> throws a TypeError.
\<close>

definition post_findOneAnd :: "fault \<Rightarrow> review_doc option \<Rightarrow> db \<Rightarrow> error option \<times> db" where
  "post_findOneAnd io r s =
     (case r of
        None \<Rightarrow> (Some TypeError, s)
      | Some d \<Rightarrow> calcAverageRatings io (tour d) s)"

text \<open>
  The queries themselves. An update that would give two reviews the same tour and
  user is refused by the compound index; the validators of the schema do not run on
  an update. A query that matches nothing changes nothing and is no error.
\<close>

definition exec_update :: "filter \<Rightarrow> review_update \<Rightarrow> review_doc list \<Rightarrow> error + review_doc list" where
  "exec_update f u rs =
     (case find f rs of
        None \<Rightarrow> Inr rs
      | Some d \<Rightarrow>
          if list_ex (same_pair (apply_update u d)) (delete_first f rs)
          then Inl DuplicateKeyError
          else Inr (update_first f (apply_update u) rs))"

definition exec_delete :: "filter \<Rightarrow> review_doc list \<Rightarrow> error + review_doc list" where
  "exec_delete f rs = Inr (delete_first f rs)"

text \<open>
  A \<^verbatim>\<open>findOneAnd...\<close> query on the review model: the pre hook, the query, and the
  post hook when the query did not fail. The result is the document found.
\<close>

definition findOneAnd ::
  "fault \<Rightarrow> filter \<Rightarrow> (review_doc list \<Rightarrow> error + review_doc list) \<Rightarrow> db
     \<Rightarrow> (error + review_doc option) \<times> db" where
  "findOneAnd io f query s =
     (let r = pre_findOneAnd f s
      in case query (reviews s) of
           Inl e \<Rightarrow> (Inl e, s)
         | Inr rs' \<Rightarrow>
             (case post_findOneAnd io r (s\<lparr>reviews := rs'\<rparr>) of
                (None, s') \<Rightarrow> (Inr r, s')
              | (Some e, s') \<Rightarrow> (Inl e, s')))"

definition findOneAndUpdate ::
  "fault \<Rightarrow> filter \<Rightarrow> review_update \<Rightarrow> db \<Rightarrow> (error + review_doc option) \<times> db" where
  "findOneAndUpdate io f u s = findOneAnd io f (exec_update f u) s"

definition findOneAndDelete ::
  "fault \<Rightarrow> filter \<Rightarrow> db \<Rightarrow> (error + review_doc option) \<times> db" where
  "findOneAndDelete io f s = findOneAnd io f (exec_delete f) s"

subsection \<open>Sequences of review mutations\<close>

text \<open>The state after each mutation has settled, whatever it returned to its caller.\<close>

datatype mutation =
    Create fault objectId review_fields
  | Update fault filter review_update
  | Delete fault filter

fun apply_mutation :: "mutation \<Rightarrow> db \<Rightarrow> db" where
  "apply_mutation (Create io oid inp) s = snd (save io oid inp s)"
| "apply_mutation (Update io f u) s = snd (findOneAndUpdate io f u s)"
| "apply_mutation (Delete io f) s = snd (findOneAndDelete io f s)"

definition run :: "mutation list \<Rightarrow> db \<Rightarrow> db" where
  "run ms s = fold apply_mutation ms s"

subsection \<open>Notions of the specification\<close>


text \<open>The reviews whose tour reference is a given tour.\<close>

definition matching :: "objectId \<Rightarrow> db \<Rightarrow> review_doc list" where
  "matching t s = filter (\<lambda>r. tour r = t) (reviews s)"

text \<open>The pairs of tour and user of the stored reviews.\<close>

definition pairs :: "review_doc list \<Rightarrow> (objectId \<times> objectId) list" where
  "pairs rs = map (\<lambda>r. (tour r, user r)) rs"

subsection \<open>Sample data\<close>

text \<open>Fields with a text, a tour and a user, and a database with tour 1 and no review.\<close>

definition fields :: "string \<Rightarrow> number option \<Rightarrow> objectId \<Rightarrow> objectId \<Rightarrow> review_fields" where
  "fields txt x t u =
     \<lparr>f_review = Castable txt,
      f_rating = (case x of None \<Rightarrow> Absent | Some v \<Rightarrow> Castable v),
      f_tour = Castable t, f_user = Castable u\<rparr>"

definition db_empty :: db where
  "db_empty = \<lparr>reviews = [], tours = [1 \<mapsto> default_tour], recomputes = [],
                unhandledRejections = []\<rparr>"

text \<open>Three reviews of tour 1, rated 5, 5 and 4.\<close>

definition db_554 :: db where
  "db_554 =
     \<lparr>reviews =
        [\<lparr>rid = 10, review = ''Great'', rating = Some (Fin 5), tour = 1, user = 100\<rparr>,
         \<lparr>rid = 11, review = ''Loved it'', rating = Some (Fin 5), tour = 1, user = 101\<rparr>,
         \<lparr>rid = 12, review = ''Good'', rating = Some (Fin 4), tour = 1, user = 102\<rparr>],
      tours = [1 \<mapsto> default_tour], recomputes = [], unhandledRejections = []\<rparr>"

text \<open>A secret tour whose summary still counts three reviews that are gone.\<close>

definition db_secret :: db where
  "db_secret =
     \<lparr>reviews = [],
      tours = [2 \<mapsto> \<lparr>ratingsAverage = Fin 4, ratingsQuantity = 3, secretTour = True\<rparr>],
      recomputes = [], unhandledRejections = []\<rparr>"

text \<open>The same stale summary on a tour that is not secret.\<close>

definition db_stale :: db where
  "db_stale =
     \<lparr>reviews = [],
      tours = [1 \<mapsto> \<lparr>ratingsAverage = Fin 4, ratingsQuantity = 3, secretTour = False\<rparr>],
      recomputes = [], unhandledRejections = []\<rparr>"

text \<open>The review that user 100 writes for tour 1, and the one of user 102.\<close>

definition doc_10 :: review_doc where
  "doc_10 = \<lparr>rid = 10, review = ''Great'', rating = Some (Fin 5), tour = 1, user = 100\<rparr>"

definition doc_12 :: review_doc where
  "doc_12 = \<lparr>rid = 12, review = ''Good'', rating = Some (Fin 4), tour = 1, user = 102\<rparr>"

text \<open>A filter that matches no review of \<open>db_554\<close>, and an update of the text.\<close>

definition no_review :: filter where
  "no_review r = (tour r = 1 \<and> user r = 103)"

definition new_text :: review_update where
  "new_text = \<lparr>set_review = Some ''Edited'', set_rating = None, set_tour = None, set_user = None\<rparr>"

text \<open>The review of user 102 for tour 1, and an update that moves it to tour 2.\<close>

definition review_of_102 :: filter where
  "review_of_102 r = (tour r = 1 \<and> user r = 102)"

definition move_to_2 :: review_update where
  "move_to_2 = \<lparr>set_review = None, set_rating = None, set_tour = Some 2, set_user = None\<rparr>"

text \<open>A review of tour 1 without a rating.\<close>

definition doc_unrated :: review_doc where
  "doc_unrated = \<lparr>rid = 13, review = ''Nice'', rating = None, tour = 1, user = 103\<rparr>"

text \<open>The stale summary of the secret tour, and mutations of reviews of that tour.\<close>

definition secret_summary :: tour_doc where
  "secret_summary = \<lparr>ratingsAverage = Fin 4, ratingsQuantity = 3, secretTour = True\<rparr>"

definition rate_secret :: "mutation list" where
  "rate_secret =
     [Create NoFault 20 (fields ''Hidden gem'' (Some (Fin 1)) 2 100),
      Update NoFault (\<lambda>r. rid r = 20)
        \<lparr>set_review = None, set_rating = Some (Fin 2), set_tour = None, set_user = None\<rparr>,
      Create NoFault 21 (fields ''Wonderful'' (Some (Fin 5)) 2 101),
      Delete NoFault (\<lambda>r. rid r = 20)]"

text \<open>Two users review tour 1.\<close>

definition two_reviews :: "mutation list" where
  "two_reviews =
     [Create NoFault 10 (fields ''Great'' (Some (Fin 5)) 1 100),
      Create NoFault 11 (fields ''So so'' (Some (Fin 3)) 1 101)]"


text \<open>An update that sets an empty text and a rating of 9.\<close>

definition spoil :: review_update where
  "spoil = \<lparr>set_review = Some [], set_rating = Some (Fin 9), set_tour = None, set_user = None\<rparr>"

text \<open>
  A review is well-formed when its text is not empty and its rating, when it has
  one, lies between 1 and 5. An update keeps to the schema when the text it sets is
  not empty and the rating it sets lies between 1 and 5.
\<close>

definition well_formed :: "review_doc \<Rightarrow> bool" where
  "well_formed r =
     (review r \<noteq> [] \<and>
      (case rating r of None \<Rightarrow> True | Some x \<Rightarrow> dle (Fin 1) x \<and> dle x (Fin 5)))"

definition in_schema :: "mutation \<Rightarrow> bool" where
  "in_schema m =
     (case m of
        Update io f u \<Rightarrow>
          set_review u \<noteq> Some [] \<and>
          (case set_rating u of None \<Rightarrow> True | Some x \<Rightarrow> dle (Fin 1) x \<and> dle x (Fin 5))
      | _ \<Rightarrow> True)"

section \<open>Properties\<close>


subsection \<open>What one recomputation does\<close>

lemma calc_reviews: "reviews (snd (calcAverageRatings io t s)) = reviews s"
  by (simp add: calcAverageRatings_def Let_def split: list.split)

lemma calc_recomputes: "recomputes (snd (calcAverageRatings io t s)) = recomputes s @ [t]"
  by (simp add: calcAverageRatings_def Let_def split: list.split)

lemma calc_unhandled:
  "unhandledRejections (snd (calcAverageRatings io t s)) = unhandledRejections s"
  by (simp add: calcAverageRatings_def Let_def split: list.split)

lemma calc_fst:
  "fst (calcAverageRatings io t s) = (if io = NoFault then None else Some StoreUnavailable)"
  by (cases io) (simp_all add: calcAverageRatings_def Let_def split: list.split)

lemma calc_tours_fault: "io \<noteq> NoFault \<Longrightarrow> tours (snd (calcAverageRatings io t s)) = tours s"
  by (cases io) (simp_all add: calcAverageRatings_def Let_def)

lemma calc_tours_empty:
  "matching t s = [] \<Longrightarrow>
   tours (snd (calcAverageRatings NoFault t s)) =
     Tour_findByIdAndUpdate t 0 (Some (Fin (9 / 2))) (tours s)"
  by (simp add: calcAverageRatings_def matching_def aggregate_def Let_def)

lemma calc_tours_nonempty:
  "matching t s \<noteq> [] \<Longrightarrow>
   tours (snd (calcAverageRatings NoFault t s)) =
     Tour_findByIdAndUpdate t (length (matching t s)) (avg (map rating (matching t s))) (tours s)"
  by (simp add: calcAverageRatings_def matching_def aggregate_def Let_def)

lemma update_secret:
  "ts k = Some d \<Longrightarrow> secretTour d \<Longrightarrow> Tour_findByIdAndUpdate t q a ts k = Some d"
  by (auto simp: Tour_findByIdAndUpdate_def split: option.split)

lemma update_other: "k \<noteq> t \<Longrightarrow> Tour_findByIdAndUpdate t q a ts k = ts k"
  by (simp add: Tour_findByIdAndUpdate_def split: option.split)

lemma update_visible:
  "ts t = Some d \<Longrightarrow> \<not> secretTour d \<Longrightarrow>
   Tour_findByIdAndUpdate t q a ts t =
     Some (d\<lparr>ratingsQuantity := q, ratingsAverage := set_ratingsAverage a\<rparr>)"
  by (simp add: Tour_findByIdAndUpdate_def)

lemma calc_secret:
  "tours s k = Some d \<Longrightarrow> secretTour d \<Longrightarrow>
   tours (snd (calcAverageRatings io t s)) k = Some d"
  by (cases io; cases "matching t s = []")
     (simp_all add: calc_tours_fault calc_tours_empty calc_tours_nonempty update_secret)

lemma set_default: "set_ratingsAverage (Some (Fin (9 / 2))) = Fin (9 / 2)"
  by code_simp

lemma set_null: "set_ratingsAverage None = Fin 0"
  by code_simp



subsection \<open>The summary of a tour with reviews\<close>




subsection \<open>The summary of a tour without reviews\<close>

text \<open>
  Claim C5, as stated, at a secret tour without reviews: the recomputation returns
  without an error and the summary keeps its quantity 3 and its average 4.
\<close>

theorem secret_tour_counterexample:
  "tours db_secret 2 = Some \<lparr>ratingsAverage = Fin 4, ratingsQuantity = 3, secretTour = True\<rparr> \<and>
   matching 2 db_secret = [] \<and>
   fst (calcAverageRatings NoFault 2 db_secret) = None \<and>
   map_option ratingsQuantity (tours (snd (calcAverageRatings NoFault 2 db_secret)) 2)
     \<noteq> Some 0 \<and>
   map_option ratingsAverage (tours (snd (calcAverageRatings NoFault 2 db_secret)) 2)
     \<noteq> Some (Fin (9 / 2))"
  by (simp add: db_secret_def calcAverageRatings_def aggregate_def matching_def
      Tour_findByIdAndUpdate_def)

text \<open>
  Claim C5, amended: for a stored tour that is not secret and has no review, a
  recomputation in which no store call fails sets \<^verbatim>\<open>ratingsQuantity\<close> to 0 and
  \<^verbatim>\<open>ratingsAverage\<close> to the constant 4.5.
\<close>

theorem calcAverageRatings_no_reviews:
  assumes "tours s t = Some d" and "\<not> secretTour d" and "matching t s = []"
  shows "fst (calcAverageRatings NoFault t s) = None \<and>
         tours (snd (calcAverageRatings NoFault t s)) t =
           Some (d\<lparr>ratingsQuantity := 0, ratingsAverage := Fin (9 / 2)\<rparr>)"
  using assms by (simp add: calc_fst calc_tours_empty update_visible set_default)

text \<open>The amended claim C5 at a tour that is not secret and has a stale summary.\<close>

theorem calcAverageRatings_no_reviews_witness:
  "tours db_stale 1 = Some \<lparr>ratingsAverage = Fin 4, ratingsQuantity = 3, secretTour = False\<rparr> \<and>
   matching 1 db_stale = [] \<and>
   tours (snd (calcAverageRatings NoFault 1 db_stale)) 1 =
     Some \<lparr>ratingsAverage = Fin (9 / 2), ratingsQuantity = 0, secretTour = False\<rparr>"
proof -
  have a: "tours db_stale 1 = Some \<lparr>ratingsAverage = Fin 4, ratingsQuantity = 3, secretTour = False\<rparr>"
    by (simp add: db_stale_def)
  have b: "\<not> secretTour \<lparr>ratingsAverage = Fin 4, ratingsQuantity = 3, secretTour = False\<rparr>" by simp
  have c: "matching 1 db_stale = []" by (simp add: db_stale_def matching_def)
  show ?thesis using calcAverageRatings_no_reviews [OF a b c] a c by simp
qed

subsection \<open>What a create does\<close>

lemma post_save_reviews: "reviews (post_save io doc s) = reviews s"
proof (cases "calcAverageRatings io (tour doc) s")
  case (Pair e s')
  with calc_reviews [of io "tour doc" s] show ?thesis
    by (simp add: post_save_def split: option.split)
qed

lemma post_save_recomputes: "recomputes (post_save io doc s) = recomputes s @ [tour doc]"
proof (cases "calcAverageRatings io (tour doc) s")
  case (Pair e s')
  with calc_recomputes [of io "tour doc" s] show ?thesis
    by (simp add: post_save_def split: option.split)
qed

lemma post_save_tours:
  "tours (post_save io doc s) = tours (snd (calcAverageRatings io (tour doc) s))"
  by (cases "calcAverageRatings io (tour doc) s") (simp add: post_save_def split: option.split)

lemma post_save_unhandled:
  "unhandledRejections (post_save io doc s) =
     unhandledRejections s @ (if io = NoFault then [] else [StoreUnavailable])"
proof (cases "calcAverageRatings io (tour doc) s")
  case (Pair e s')
  with calc_unhandled [of io "tour doc" s] calc_fst [of io "tour doc" s] show ?thesis
    by (auto simp: post_save_def split: option.split)
qed

lemma validate_ok_iff:
  "validate inp = no_errors \<longleftrightarrow>
     (\<exists>txt t u. f_review inp = Castable txt \<and> txt \<noteq> [] \<and>
        f_tour inp = Castable t \<and> f_user inp = Castable u \<and>
        (f_rating inp = Absent \<or>
         (\<exists>x. f_rating inp = Castable x \<and> dle (Fin 1) x \<and> dle x (Fin 5))))"
  by (auto simp: validate_def no_errors_def check_review_def check_rating_def check_ref_def
      split: raw.splits if_splits)

lemma to_doc_Some:
  "to_doc oid inp = Some d \<longleftrightarrow>
     (f_review inp = Castable (review d) \<and> f_tour inp = Castable (tour d) \<and>
      f_user inp = Castable (user d) \<and>
      rating d = (case f_rating inp of Castable x \<Rightarrow> Some x | _ \<Rightarrow> None) \<and> rid d = oid)"
  by (cases d) (auto simp: to_doc_def split: raw.splits)

lemma validate_to_doc: "validate inp = no_errors \<Longrightarrow> to_doc oid inp \<noteq> None"
  by (auto simp: validate_ok_iff to_doc_def)

lemma save_Inr:
  "fst (save io oid inp s) = Inr d \<longleftrightarrow>
     (validate inp = no_errors \<and> to_doc oid inp = Some d \<and> \<not> duplicate_key d (reviews s))"
  by (auto simp: save_def split: option.splits)

lemma save_Inr_state:
  "fst (save io oid inp s) = Inr d \<Longrightarrow>
   snd (save io oid inp s) = post_save io d (s\<lparr>reviews := reviews s @ [d]\<rparr>)"
  by (auto simp: save_def split: option.splits if_splits)

lemma save_Inl_state: "fst (save io oid inp s) = Inl e \<Longrightarrow> snd (save io oid inp s) = s"
  by (auto simp: save_def split: option.splits if_splits)

lemma save_ValidationError:
  "(\<exists>errs. fst (save io oid inp s) = Inl (ValidationError errs)) \<longleftrightarrow>
     validate inp \<noteq> no_errors"
  using validate_to_doc [of inp oid] by (auto simp: save_def split: option.splits)

lemma find_fresh:
  "\<not> list_ex (\<lambda>r. rid r = rid d \<or> same_pair d r) rs \<Longrightarrow> find (\<lambda>r. rid r = rid d) (rs @ [d]) = Some d"
  by (induction rs) auto

subsection \<open>Creating a review: the review outlives a failed recomputation\<close>

text \<open>
  Claim C6: the recomputation of a create runs on the state that already holds the
  new review, and only when the review was stored. When the create stores the review
  \<open>doc\<close>, the review collection is the old one followed by \<open>doc\<close>, a query by its
  \<^verbatim>\<open>_id\<close> finds it, and one recomputation of its tour was started on that state. When
  a store call of the recomputation fails, the caller still has its review, the
  tours are as before, and the rejection is unhandled. A create that fails
  changes nothing, so it starts no recomputation.
\<close>

theorem save_durable:
  "(fst (save io oid inp s) = Inr doc \<longrightarrow>
      reviews (snd (save io oid inp s)) = reviews s @ [doc] \<and>
      find (\<lambda>r. rid r = oid) (reviews (snd (save io oid inp s))) = Some doc \<and>
      snd (save io oid inp s) = post_save io doc (s\<lparr>reviews := reviews s @ [doc]\<rparr>) \<and>
      recomputes (snd (save io oid inp s)) = recomputes s @ [tour doc] \<and>
      (io \<noteq> NoFault \<longrightarrow>
         tours (snd (save io oid inp s)) = tours s \<and>
         unhandledRejections (snd (save io oid inp s)) =
           unhandledRejections s @ [StoreUnavailable])) \<and>
   (\<forall>e. fst (save io oid inp s) = Inl e \<longrightarrow> snd (save io oid inp s) = s)"
proof (intro conjI impI allI)
  fix e assume "fst (save io oid inp s) = Inl e"
  then show "snd (save io oid inp s) = s" by (rule save_Inl_state)
next
  assume ok: "fst (save io oid inp s) = Inr doc"
  then have st: "snd (save io oid inp s) = post_save io doc (s\<lparr>reviews := reviews s @ [doc]\<rparr>)"
    by (rule save_Inr_state)
  from ok have fresh: "\<not> duplicate_key doc (reviews s)" and id: "rid doc = oid"
    by (simp_all add: save_Inr to_doc_Some)
  show "snd (save io oid inp s) = post_save io doc (s\<lparr>reviews := reviews s @ [doc]\<rparr>)"
    by (rule st)
  show "reviews (snd (save io oid inp s)) = reviews s @ [doc]"
    by (simp add: st post_save_reviews)
  show "find (\<lambda>r. rid r = oid) (reviews (snd (save io oid inp s))) = Some doc"
    using find_fresh [of doc "reviews s"] fresh id
    by (simp add: st post_save_reviews duplicate_key_def)
  show "recomputes (snd (save io oid inp s)) = recomputes s @ [tour doc]"
    by (simp add: st post_save_recomputes)
  {
    assume f: "io \<noteq> NoFault"
    show "tours (snd (save io oid inp s)) = tours s"
      using f by (simp add: st post_save_tours calc_tours_fault)
    show "unhandledRejections (snd (save io oid inp s)) =
           unhandledRejections s @ [StoreUnavailable]"
      using f by (simp add: st post_save_unhandled)
  }
qed

text \<open>Claim C6 at a create whose recomputation fails at the write to the tour.\<close>

theorem save_durable_witness:
  "fst (save UpdateFault 10 (fields ''Great'' (Some (Fin 5)) 1 100) db_empty) = Inr doc_10 \<and>
   reviews (snd (save UpdateFault 10 (fields ''Great'' (Some (Fin 5)) 1 100) db_empty)) = [doc_10] \<and>
   find (\<lambda>r. rid r = 10) (reviews (snd (save UpdateFault 10 (fields ''Great'' (Some (Fin 5)) 1 100) db_empty)))
     = Some doc_10 \<and>
   tours (snd (save UpdateFault 10 (fields ''Great'' (Some (Fin 5)) 1 100) db_empty)) 1 = Some default_tour \<and>
   unhandledRejections (snd (save UpdateFault 10 (fields ''Great'' (Some (Fin 5)) 1 100) db_empty))
     = [StoreUnavailable]"
proof -
  have a: "fst (save UpdateFault 10 (fields ''Great'' (Some (Fin 5)) 1 100) db_empty) = Inr doc_10"
    by (simp add: save_def validate_def no_errors_def check_review_def check_rating_def
        check_ref_def to_doc_def duplicate_key_def fields_def db_empty_def doc_10_def)
  have b: "UpdateFault \<noteq> NoFault" by simp
  have c: "tours db_empty 1 = Some default_tour" "reviews db_empty = []"
    "unhandledRejections db_empty = []"
    by (simp_all add: db_empty_def)
  have w:
    "reviews (snd (save UpdateFault 10 (fields ''Great'' (Some (Fin 5)) 1 100) db_empty))
       = reviews db_empty @ [doc_10] \<and>
     find (\<lambda>r. rid r = 10)
       (reviews (snd (save UpdateFault 10 (fields ''Great'' (Some (Fin 5)) 1 100) db_empty)))
       = Some doc_10 \<and>
     tours (snd (save UpdateFault 10 (fields ''Great'' (Some (Fin 5)) 1 100) db_empty))
       = tours db_empty \<and>
     unhandledRejections (snd (save UpdateFault 10 (fields ''Great'' (Some (Fin 5)) 1 100) db_empty))
       = unhandledRejections db_empty @ [StoreUnavailable]"
    using save_durable [of UpdateFault 10 "fields ''Great'' (Some (Fin 5)) 1 100" db_empty doc_10] a b
    by blast
  show ?thesis using w a c by (simp add: doc_10_def)
qed

subsection \<open>Updating and deleting by a filter\<close>

lemma delete_first_none: "find f rs = None \<Longrightarrow> delete_first f rs = rs"
  by (induction rs) (auto split: if_splits)

lemma findOneAnd_None:
  "find f (reviews s) = None \<Longrightarrow> query (reviews s) = Inr (reviews s) \<Longrightarrow>
   findOneAnd io f query s = (Inl TypeError, s)"
  by (simp add: findOneAnd_def pre_findOneAnd_def post_findOneAnd_def)

lemma findOneAnd_no_match:
  assumes "find f (reviews s) = None"
  shows "findOneAndDelete io f s = (Inl TypeError, s)"
    and "findOneAndUpdate io f u s = (Inl TypeError, s)"
  using assms
  by (simp_all add: findOneAndDelete_def findOneAndUpdate_def findOneAnd_None
      exec_delete_def exec_update_def delete_first_none)

text \<open>
  Claim C2 at the three reviews of tour 1 and a filter for a review by user 103,
  who has none: the pre hook finds \<^verbatim>\<open>null\<close>, the query changes nothing, and the post
  hook reads \<^verbatim>\<open>this.r.constructor\<close>, so both the delete and the update end with a
  TypeError. No recomputation is started and the database is as before.
\<close>

theorem findOneAnd_no_match_TypeError:
  "find no_review (reviews db_554) = None \<and>
   findOneAndDelete NoFault no_review db_554 = (Inl TypeError, db_554) \<and>
   findOneAndUpdate NoFault no_review new_text db_554 = (Inl TypeError, db_554)"
  by (simp add: db_554_def no_review_def findOneAndDelete_def findOneAndUpdate_def findOneAnd_def
      pre_findOneAnd_def post_findOneAnd_def exec_delete_def exec_update_def)

lemma findOneAnd_Some:
  "pre_findOneAnd f s = Some r \<Longrightarrow> query (reviews s) = Inr rs' \<Longrightarrow>
   findOneAnd io f query s =
     (if io = NoFault then Inr (Some r) else Inl StoreUnavailable,
      snd (calcAverageRatings io (tour r) (s\<lparr>reviews := rs'\<rparr>)))"
  using calc_fst [of io "tour r" "s\<lparr>reviews := rs'\<rparr>"]
  by (cases "calcAverageRatings io (tour r) (s\<lparr>reviews := rs'\<rparr>)")
     (auto simp: findOneAnd_def post_findOneAnd_def split: option.split)

lemma findOneAnd_Inl:
  "query (reviews s) = Inl e \<Longrightarrow> findOneAnd io f query s = (Inl e, s)"
  by (simp add: findOneAnd_def)

lemma exec_update_Inr:
  "find f rs = Some r \<Longrightarrow> exec_update f u rs = Inr rs' \<Longrightarrow>
   rs' = update_first f (apply_update u) rs"
  by (auto simp: exec_update_def split: if_splits)

lemma findOneAnd_reviews:
  "reviews (snd (findOneAnd io f query s)) =
     (case query (reviews s) of Inl e \<Rightarrow> reviews s | Inr rs' \<Rightarrow> rs')"
proof (cases "query (reviews s)")
  case (Inl e)
  then show ?thesis by (simp add: findOneAnd_Inl)
next
  case (Inr rs')
  show ?thesis
  proof (cases "pre_findOneAnd f s")
    case None
    then show ?thesis
      using Inr by (simp add: findOneAnd_def post_findOneAnd_def)
  next
    case (Some r)
    then show ?thesis using Inr by (simp add: findOneAnd_Some calc_reviews)
  qed
qed

text \<open>
  Claim C3: when the pre hook finds the review \<open>r\<close> in the state before the query,
  a delete ends in the state that the recomputation of \<open>tour r\<close> reaches from the
  state without the review, and an update that the store accepts ends in the state
  that the recomputation of \<open>tour r\<close> reaches from the state with the updated
  review. In both cases exactly one recomputation was started, with the tour of the
  review as it was before the query. An update that the store refuses changes
  nothing.
\<close>

theorem capture_before_mutate:
  assumes "pre_findOneAnd f s = Some r"
  shows "snd (findOneAndDelete io f s) =
           snd (calcAverageRatings io (tour r) (s\<lparr>reviews := delete_first f (reviews s)\<rparr>)) \<and>
         recomputes (snd (findOneAndDelete io f s)) = recomputes s @ [tour r] \<and>
         (\<forall>rs'. exec_update f u (reviews s) = Inr rs' \<longrightarrow>
            rs' = update_first f (apply_update u) (reviews s) \<and>
            snd (findOneAndUpdate io f u s) =
              snd (calcAverageRatings io (tour r) (s\<lparr>reviews := rs'\<rparr>)) \<and>
            recomputes (snd (findOneAndUpdate io f u s)) = recomputes s @ [tour r]) \<and>
         (\<forall>e. exec_update f u (reviews s) = Inl e \<longrightarrow> findOneAndUpdate io f u s = (Inl e, s))"
proof (intro conjI allI impI)
  have d: "findOneAndDelete io f s =
      (if io = NoFault then Inr (Some r) else Inl StoreUnavailable,
       snd (calcAverageRatings io (tour r) (s\<lparr>reviews := delete_first f (reviews s)\<rparr>)))"
    unfolding findOneAndDelete_def
    by (rule findOneAnd_Some [OF assms]) (simp add: exec_delete_def)
  show "snd (findOneAndDelete io f s) =
      snd (calcAverageRatings io (tour r) (s\<lparr>reviews := delete_first f (reviews s)\<rparr>))"
    by (simp add: d)
  show "recomputes (snd (findOneAndDelete io f s)) = recomputes s @ [tour r]"
    by (simp add: d calc_recomputes)
next
  fix rs' assume q: "exec_update f u (reviews s) = Inr rs'"
  have u: "findOneAndUpdate io f u s =
      (if io = NoFault then Inr (Some r) else Inl StoreUnavailable,
       snd (calcAverageRatings io (tour r) (s\<lparr>reviews := rs'\<rparr>)))"
    unfolding findOneAndUpdate_def using assms q by (rule findOneAnd_Some)
  show "rs' = update_first f (apply_update u) (reviews s)"
    using assms q by (auto simp: pre_findOneAnd_def intro: exec_update_Inr)
  show "snd (findOneAndUpdate io f u s) = snd (calcAverageRatings io (tour r) (s\<lparr>reviews := rs'\<rparr>))"
    by (simp add: u)
  show "recomputes (snd (findOneAndUpdate io f u s)) = recomputes s @ [tour r]"
    by (simp add: u calc_recomputes)
next
  fix e assume "exec_update f u (reviews s) = Inl e"
  then show "findOneAndUpdate io f u s = (Inl e, s)"
    unfolding findOneAndUpdate_def by (rule findOneAnd_Inl)
qed

text \<open>
  Claim C3 at an update that moves the review of user 102 from tour 1 to tour 2:
  afterwards the filter matches nothing, and the recomputation was that of tour 1.
\<close>

theorem capture_before_mutate_witness:
  "pre_findOneAnd review_of_102 db_554 = Some doc_12 \<and>
   exec_update review_of_102 move_to_2 (reviews db_554)
     = Inr (update_first review_of_102 (apply_update move_to_2) (reviews db_554)) \<and>
   find review_of_102 (reviews (snd (findOneAndUpdate NoFault review_of_102 move_to_2 db_554)))
     = None \<and>
   recomputes (snd (findOneAndUpdate NoFault review_of_102 move_to_2 db_554)) = [1] \<and>
   recomputes (snd (findOneAndDelete NoFault review_of_102 db_554)) = [1]"
proof -
  have a: "pre_findOneAnd review_of_102 db_554 = Some doc_12"
    by (simp add: pre_findOneAnd_def db_554_def review_of_102_def doc_12_def)
  have b: "exec_update review_of_102 move_to_2 (reviews db_554)
     = Inr (update_first review_of_102 (apply_update move_to_2) (reviews db_554))"
    by (simp add: exec_update_def db_554_def review_of_102_def move_to_2_def apply_update_def
        same_pair_def)
  have c: "recomputes db_554 = []" "tour doc_12 = 1"
    by (simp_all add: db_554_def doc_12_def)
  have w: "recomputes (snd (findOneAndUpdate NoFault review_of_102 move_to_2 db_554))
      = recomputes db_554 @ [tour doc_12] \<and>
     recomputes (snd (findOneAndDelete NoFault review_of_102 db_554))
      = recomputes db_554 @ [tour doc_12] \<and>
     snd (findOneAndUpdate NoFault review_of_102 move_to_2 db_554) =
       snd (calcAverageRatings NoFault (tour doc_12)
         (db_554\<lparr>reviews := update_first review_of_102 (apply_update move_to_2) (reviews db_554)\<rparr>))"
    using capture_before_mutate [OF a, of NoFault move_to_2] b by blast
  have d: "find review_of_102 (reviews (snd (calcAverageRatings NoFault (tour doc_12)
         (db_554\<lparr>reviews := update_first review_of_102 (apply_update move_to_2) (reviews db_554)\<rparr>))))
       = None"
    by (simp add: calc_reviews db_554_def review_of_102_def move_to_2_def apply_update_def)
  from w have w1: "recomputes (snd (findOneAndUpdate NoFault review_of_102 move_to_2 db_554))
      = recomputes db_554 @ [tour doc_12]"
    and w2: "recomputes (snd (findOneAndDelete NoFault review_of_102 db_554))
      = recomputes db_554 @ [tour doc_12]"
    and w3: "snd (findOneAndUpdate NoFault review_of_102 move_to_2 db_554) =
       snd (calcAverageRatings NoFault (tour doc_12)
         (db_554\<lparr>reviews := update_first review_of_102 (apply_update move_to_2) (reviews db_554)\<rparr>))"
    by blast+
  have e: "find review_of_102
      (reviews (snd (findOneAndUpdate NoFault review_of_102 move_to_2 db_554))) = None"
    unfolding w3 by (rule d)
  show ?thesis using w1 w2 e a b c by simp
qed

subsection \<open>Validation of a create\<close>

lemma save_well_formed:
  assumes "fst (save io oid inp s) = Inr d"
  shows "well_formed d"
proof -
  from assms have v: "validate inp = no_errors" and t: "to_doc oid inp = Some d"
    by (simp_all add: save_Inr)
  from v t show ?thesis
    by (auto simp: validate_ok_iff to_doc_Some well_formed_def split: option.split)
qed

lemma apply_update_well_formed:
  assumes "well_formed d" and "in_schema (Update io f u)"
  shows "well_formed (apply_update u d)"
  using assms
  by (auto simp: well_formed_def in_schema_def apply_update_def split: option.splits)

lemma list_all_delete_first: "list_all P rs \<Longrightarrow> list_all P (delete_first f rs)"
  by (induction rs) auto

lemma list_all_update_first:
  "list_all P rs \<Longrightarrow> (\<And>x. P x \<Longrightarrow> P (g x)) \<Longrightarrow> list_all P (update_first f g rs)"
  by (induction rs) auto

lemma apply_mutation_well_formed:
  assumes "list_all well_formed (reviews s)" and "in_schema m"
  shows "list_all well_formed (reviews (apply_mutation m s))"
proof (cases m)
  case (Create io oid inp)
  show ?thesis
  proof (cases "fst (save io oid inp s)")
    case (Inl e)
    then show ?thesis using Create assms(1) by (simp add: save_Inl_state)
  next
    case (Inr d)
    then show ?thesis
      using Create assms(1) save_well_formed [OF Inr]
      by (simp add: save_Inr_state post_save_reviews)
  qed
next
  case (Update io f u)
  have "list_all well_formed (update_first f (apply_update u) (reviews s))"
    using assms(1)
  proof (rule list_all_update_first)
    fix x assume "well_formed x"
    then show "well_formed (apply_update u x)"
      using assms(2) unfolding Update by (rule apply_update_well_formed)
  qed
  then show ?thesis
    using Update assms(1)
    by (auto simp: findOneAndUpdate_def findOneAnd_reviews exec_update_def
        split: sum.split option.splits if_splits)
next
  case (Delete io f)
  then show ?thesis
    using assms(1)
    by (simp add: findOneAndDelete_def findOneAnd_reviews exec_delete_def list_all_delete_first)
qed

lemma run_well_formed:
  "list_all well_formed (reviews s) \<Longrightarrow> list_all in_schema ms \<Longrightarrow>
   list_all well_formed (reviews (run ms s))"
  unfolding run_def by (induction ms arbitrary: s) (simp_all add: apply_mutation_well_formed)

text \<open>
  Claim C7, as stated, at a create without a rating and at an update: the fields
  without a rating pass the validation and the review is stored with no rating at
  all; the update is not validated and stores an empty text and a rating of 9.
\<close>

theorem unrated_create_counterexample:
  "f_rating (fields ''Nice'' None 1 103) = Absent \<and>
   fst (save NoFault 13 (fields ''Nice'' None 1 103) db_554) = Inr doc_unrated \<and>
   map rating (reviews (snd (save NoFault 13 (fields ''Nice'' None 1 103) db_554)))
     = [Some (Fin 5), Some (Fin 5), Some (Fin 4), None] \<and>
   fst (findOneAndUpdate NoFault review_of_102 spoil db_554) = Inr (Some doc_12) \<and>
   map (\<lambda>r. (review r, rating r))
     (reviews (snd (findOneAndUpdate NoFault review_of_102 spoil db_554)))
     = [(''Great'', Some (Fin 5)), (''Loved it'', Some (Fin 5)), ([], Some (Fin 9))]"
proof -
  have a: "fst (save NoFault 13 (fields ''Nice'' None 1 103) db_554) = Inr doc_unrated"
    by (simp add: save_def validate_def no_errors_def check_review_def check_rating_def
        check_ref_def to_doc_def duplicate_key_def same_pair_def fields_def db_554_def
        doc_unrated_def)
  have b: "reviews (snd (save NoFault 13 (fields ''Nice'' None 1 103) db_554))
      = reviews db_554 @ [doc_unrated]"
    using a by (simp add: save_Inr_state post_save_reviews)
  have p: "pre_findOneAnd review_of_102 db_554 = Some doc_12"
    by (simp add: pre_findOneAnd_def db_554_def review_of_102_def doc_12_def)
  have q: "exec_update review_of_102 spoil (reviews db_554) =
      Inr (update_first review_of_102 (apply_update spoil) (reviews db_554))"
    by (simp add: exec_update_def db_554_def review_of_102_def spoil_def apply_update_def
        same_pair_def)
  have u: "findOneAndUpdate NoFault review_of_102 spoil db_554 =
      (Inr (Some doc_12),
       snd (calcAverageRatings NoFault (tour doc_12)
         (db_554\<lparr>reviews := update_first review_of_102 (apply_update spoil) (reviews db_554)\<rparr>)))"
    unfolding findOneAndUpdate_def
    using findOneAnd_Some [where query = "exec_update review_of_102 spoil", OF p q, of NoFault]
    by simp
  have c: "f_rating (fields ''Nice'' None 1 103) = Absent" by (simp add: fields_def)
  have d: "map rating (reviews (snd (save NoFault 13 (fields ''Nice'' None 1 103) db_554)))
     = [Some (Fin 5), Some (Fin 5), Some (Fin 4), None]"
    unfolding b by (simp add: db_554_def doc_unrated_def)
  have e: "fst (findOneAndUpdate NoFault review_of_102 spoil db_554) = Inr (Some doc_12)"
    unfolding u by simp
  have f: "map (\<lambda>r. (review r, rating r))
     (reviews (snd (findOneAndUpdate NoFault review_of_102 spoil db_554)))
     = [(''Great'', Some (Fin 5)), (''Loved it'', Some (Fin 5)), ([], Some (Fin 9))]"
    unfolding u
    by (simp add: calc_reviews db_554_def review_of_102_def spoil_def apply_update_def)
  from a c d e f show ?thesis by blast
qed

text \<open>
  Claim C7, amended: a create fails with a ValidationError exactly when the text is
  missing, empty or not castable to a string, or a rating is given and is not
  castable to a number or lies outside the range from 1 to 5, or the tour or the
  user is missing or not castable to an ObjectId. Every review that a create stores
  has the text, tour and user of the fields, a text that is not empty, and, when it
  has a rating, a rating from 1 to 5. An update by a filter is not validated: when
  all stored reviews are well-formed, they are so after every sequence of
  mutations whose updates set no empty text and no rating outside that range.
\<close>

theorem save_validation:
  "((\<exists>errs. fst (save io oid inp s) = Inl (ValidationError errs)) \<longleftrightarrow>
      (f_review inp = Absent \<or> f_review inp = Castable [] \<or> f_review inp = Uncastable \<or>
       f_rating inp = Uncastable \<or>
       (\<exists>x. f_rating inp = Castable x \<and> \<not> (dle (Fin 1) x \<and> dle x (Fin 5))) \<or>
       f_tour inp = Absent \<or> f_tour inp = Uncastable \<or>
       f_user inp = Absent \<or> f_user inp = Uncastable)) \<and>
   (\<forall>d. fst (save io oid inp s) = Inr d \<longrightarrow>
      d \<in> set (reviews (snd (save io oid inp s))) \<and> well_formed d \<and>
      f_review inp = Castable (review d) \<and>
      f_tour inp = Castable (tour d) \<and> f_user inp = Castable (user d) \<and>
      (case rating d of None \<Rightarrow> f_rating inp = Absent | Some x \<Rightarrow> f_rating inp = Castable x)) \<and>
   (list_all well_formed (reviews s) \<and> list_all in_schema ms \<longrightarrow>
      list_all well_formed (reviews (run ms s)))"
proof (intro conjI)
  show "(\<exists>errs. fst (save io oid inp s) = Inl (ValidationError errs)) \<longleftrightarrow>
      (f_review inp = Absent \<or> f_review inp = Castable [] \<or> f_review inp = Uncastable \<or>
       f_rating inp = Uncastable \<or>
       (\<exists>x. f_rating inp = Castable x \<and> \<not> (dle (Fin 1) x \<and> dle x (Fin 5))) \<or>
       f_tour inp = Absent \<or> f_tour inp = Uncastable \<or>
       f_user inp = Absent \<or> f_user inp = Uncastable)"
    unfolding save_ValidationError validate_ok_iff
    by (cases "f_review inp"; cases "f_tour inp"; cases "f_user inp"; cases "f_rating inp") auto
next
  show "\<forall>d. fst (save io oid inp s) = Inr d \<longrightarrow>
      d \<in> set (reviews (snd (save io oid inp s))) \<and> well_formed d \<and>
      f_review inp = Castable (review d) \<and>
      f_tour inp = Castable (tour d) \<and> f_user inp = Castable (user d) \<and>
      (case rating d of None \<Rightarrow> f_rating inp = Absent | Some x \<Rightarrow> f_rating inp = Castable x)"
  proof (intro allI impI)
    fix d assume ok: "fst (save io oid inp s) = Inr d"
    then have v: "validate inp = no_errors" and t: "to_doc oid inp = Some d"
      by (simp_all add: save_Inr)
    from ok have "reviews (snd (save io oid inp s)) = reviews s @ [d]"
      by (simp add: save_Inr_state post_save_reviews)
    then have m: "d \<in> set (reviews (snd (save io oid inp s)))" by simp
    from t have f: "f_review inp = Castable (review d)" "f_tour inp = Castable (tour d)"
      "f_user inp = Castable (user d)"
      by (simp_all add: to_doc_Some)
    from v t have g: "case rating d of None \<Rightarrow> f_rating inp = Absent
        | Some x \<Rightarrow> f_rating inp = Castable x"
      by (auto simp: validate_ok_iff to_doc_Some split: option.split)
    from m f g save_well_formed [OF ok]
    show "d \<in> set (reviews (snd (save io oid inp s))) \<and> well_formed d \<and>
      f_review inp = Castable (review d) \<and>
      f_tour inp = Castable (tour d) \<and> f_user inp = Castable (user d) \<and>
      (case rating d of None \<Rightarrow> f_rating inp = Absent | Some x \<Rightarrow> f_rating inp = Castable x)"
      by blast
  qed
next
  show "list_all well_formed (reviews s) \<and> list_all in_schema ms \<longrightarrow>
      list_all well_formed (reviews (run ms s))"
    using run_well_formed by blast
qed

text \<open>
  The amended claim C7 at three creates: a rating of 6, an empty text, and fields
  without a rating, which are stored; and at the reviews of a secret tour, which
  are well-formed after two creates, an update of the rating to 2 and a delete.
\<close>

theorem save_validation_witness:
  "fst (save NoFault 13 (fields ''Nice'' (Some (Fin 6)) 1 103) db_554)
     = Inl (ValidationError
         (no_errors\<lparr>e_rating := Some (ValidatorError ''A review must be less than 5.0'')\<rparr>)) \<and>
   fst (save NoFault 13 (fields [] (Some (Fin 5)) 1 103) db_554)
     = Inl (ValidationError
         (no_errors\<lparr>e_review := Some (ValidatorError ''Review cannotbe empty'')\<rparr>)) \<and>
   fst (save NoFault 13 (fields ''Nice'' None 1 103) db_554) = Inr doc_unrated \<and>
   doc_unrated \<in> set (reviews (snd (save NoFault 13 (fields ''Nice'' None 1 103) db_554))) \<and>
   well_formed doc_unrated \<and>
   list_all well_formed (reviews db_secret) \<and> list_all in_schema rate_secret \<and>
   list_all well_formed (reviews (run rate_secret db_secret))"
proof -
  have a: "fst (save NoFault 13 (fields ''Nice'' None 1 103) db_554) = Inr doc_unrated"
    by (simp add: save_def validate_def no_errors_def check_review_def check_rating_def
        check_ref_def to_doc_def duplicate_key_def same_pair_def fields_def db_554_def
        doc_unrated_def)
  have b: "fst (save NoFault 13 (fields ''Nice'' (Some (Fin 6)) 1 103) db_554)
     = Inl (ValidationError
         (no_errors\<lparr>e_rating := Some (ValidatorError ''A review must be less than 5.0'')\<rparr>))"
    by (simp add: save_def validate_def no_errors_def check_review_def check_rating_def
        check_ref_def fields_def)
  have c: "fst (save NoFault 13 (fields [] (Some (Fin 5)) 1 103) db_554)
     = Inl (ValidationError
         (no_errors\<lparr>e_review := Some (ValidatorError ''Review cannotbe empty'')\<rparr>))"
    by (simp add: save_def validate_def no_errors_def check_review_def check_rating_def
        check_ref_def fields_def)
  have h: "list_all well_formed (reviews db_secret) \<and> list_all in_schema rate_secret"
    by (simp add: db_secret_def rate_secret_def in_schema_def)
  note w = save_validation [of NoFault 13 "fields ''Nice'' None 1 103" db_554]
  from w a have d: "doc_unrated \<in> set (reviews (snd (save NoFault 13 (fields ''Nice'' None 1 103) db_554)))
      \<and> well_formed doc_unrated"
    by blast
  from save_validation [of NoFault 13 "fields ''Nice'' None 1 103" db_secret rate_secret] h
  have e: "list_all well_formed (reviews (run rate_secret db_secret))" by blast
  from a b c d e h show ?thesis by blast
qed

subsection \<open>The setter of the average\<close>

lemma calc_tours_changed:
  assumes "tours (snd (calcAverageRatings io t s)) k \<noteq> tours s k"
  shows "io = NoFault \<and> k = t \<and> (\<exists>d. tours s t = Some d \<and> \<not> secretTour d \<and>
           tours (snd (calcAverageRatings io t s)) t =
             Some (d\<lparr>ratingsQuantity := length (matching t s),
                     ratingsAverage := set_ratingsAverage
                       (if matching t s = [] then Some (Fin (9 / 2))
                        else avg (map rating (matching t s)))\<rparr>))"
proof -
  have io: "io = NoFault"
  proof (rule ccontr)
    assume "io \<noteq> NoFault"
    then have "tours (snd (calcAverageRatings io t s)) = tours s" by (rule calc_tours_fault)
    with assms show False by simp
  qed
  have k: "k = t"
    using assms io update_other [of k t]
    by (cases "matching t s = []") (auto simp: calc_tours_empty calc_tours_nonempty)
  obtain d where d: "tours s t = Some d" "\<not> secretTour d"
    using assms io k
    by (cases "matching t s = []"; cases "tours s t")
       (auto simp: calc_tours_empty calc_tours_nonempty Tour_findByIdAndUpdate_def split: if_splits)
  show ?thesis
    using io k d
    by (cases "matching t s = []") (simp_all add: calc_tours_empty calc_tours_nonempty update_visible)
qed

text \<open>
  Claim C8: whenever a recomputation changes a tour document, the new
  \<^verbatim>\<open>ratingsAverage\<close> is \<^verbatim>\<open>Math.round(w * 10) / 10\<close>, in double arithmetic, for the
  value \<open>w\<close> handed to the write, the average of the aggregation or 4.5. So when
  \<^verbatim>\<open>w * 10\<close> is finite, the stored value is the double of a whole number of tenths.
\<close>

theorem stored_average_rounded:
  assumes "tours (snd (calcAverageRatings io t s)) k \<noteq> tours s k"
    and "w = (if matching t s = [] then Some (Fin (9 / 2)) else avg (map rating (matching t s)))"
  shows "\<exists>d'. tours (snd (calcAverageRatings io t s)) k = Some d' \<and>
           ratingsAverage d' = ddiv (Math_round (dmul (to_number w) (Fin 10))) (Fin 10) \<and>
           (\<forall>x. dmul (to_number w) (Fin 10) = Fin x \<longrightarrow>
              ratingsAverage d' = rd (of_int \<lfloor>x + 1 / 2\<rfloor> / 10))"
proof -
  from calc_tours_changed [OF assms(1)] obtain d where
    k: "k = t" and
    d: "tours (snd (calcAverageRatings io t s)) t =
         Some (d\<lparr>ratingsQuantity := length (matching t s), ratingsAverage := set_ratingsAverage w\<rparr>)"
    unfolding assms(2) by blast
  have "\<forall>x. dmul (to_number w) (Fin 10) = Fin x \<longrightarrow>
      set_ratingsAverage w = rd (of_int \<lfloor>x + 1 / 2\<rfloor> / 10)"
    by (simp add: set_ratingsAverage_def)
  then show ?thesis
    using k d by (simp add: set_ratingsAverage_def)
qed

text \<open>
  Claim C8 at the reviews rated 5, 5 and 4: the aggregation gives the double
  nearest to 14/3 and the tour stores the double 4.7. At the double 4.35 the
  setter gives 4.4, since \<^verbatim>\<open>4.35 * 10\<close> is 43.5 in double arithmetic.
\<close>

theorem stored_average_rounded_witness:
  "tours (snd (calcAverageRatings NoFault 1 db_554)) 1 \<noteq> tours db_554 1 \<and>
   avg (map rating (matching 1 db_554)) = Some (rd (14 / 3)) \<and>
   map_option ratingsAverage (tours (snd (calcAverageRatings NoFault 1 db_554)) 1)
     = Some (rd (47 / 10)) \<and>
   rd (47 / 10) \<noteq> rd (14 / 3) \<and>
   set_ratingsAverage (Some (rd (435 / 100))) = rd (44 / 10)"
proof -
  have a: "tours (snd (calcAverageRatings NoFault 1 db_554)) 1 \<noteq> tours db_554 1"
    by code_simp
  have m: "matching 1 db_554 \<noteq> []" by (simp add: matching_def db_554_def)
  have b: "avg (map rating (matching 1 db_554)) = Some (rd (14 / 3))"
    by code_simp
  have w: "Some (rd (14 / 3)) =
      (if matching 1 db_554 = [] then Some (Fin (9 / 2)) else avg (map rating (matching 1 db_554)))"
    using m b by simp
  have r: "ddiv (Math_round (dmul (to_number (Some (rd (14 / 3)))) (Fin 10))) (Fin 10)
      = rd (47 / 10)"
    by code_simp
  have n: "rd (47 / 10) \<noteq> rd (14 / 3)" by code_simp
  have q: "set_ratingsAverage (Some (rd (435 / 100))) = rd (44 / 10)" by code_simp
  from stored_average_rounded [OF a w] obtain d' where
    "tours (snd (calcAverageRatings NoFault 1 db_554)) 1 = Some d'"
    "ratingsAverage d' = ddiv (Math_round (dmul (to_number (Some (rd (14 / 3)))) (Fin 10))) (Fin 10)"
    by blast
  then have "map_option ratingsAverage (tours (snd (calcAverageRatings NoFault 1 db_554)) 1)
     = Some (rd (47 / 10))"
    by (simp add: r)
  with a b n q show ?thesis by blast
qed

subsection \<open>Reviews without a rating\<close>

lemma save_unrated:
  assumes "f_review inp = Castable txt" and "txt \<noteq> []" and "f_tour inp = Castable t"
    and "f_user inp = Castable u" and "f_rating inp = Absent"
  shows "validate inp = no_errors"
    and "to_doc oid inp = Some \<lparr>rid = oid, review = txt, rating = None, tour = t, user = u\<rparr>"
  using assms by (simp_all add: validate_ok_iff to_doc_def)

lemma numeric_rated:
  "numeric (map rating (filter (\<lambda>r. rating r \<noteq> None) rs)) = numeric (map rating rs)"
  by (induction rs) (auto simp del: not_None_eq)

lemma avg_rated: "avg (map rating (filter (\<lambda>r. rating r \<noteq> None) rs)) = avg (map rating rs)"
  by (simp only: avg_def numeric_rated)

lemma avg_unrated: "filter (\<lambda>r. rating r \<noteq> None) rs = [] \<Longrightarrow> avg (map rating rs) = None"
  using numeric_rated [of rs] by (simp add: avg_def del: not_None_eq)

lemma filter_rated_less:
  "r \<in> set rs \<Longrightarrow> rating r = None \<Longrightarrow> length (filter (\<lambda>r. rating r \<noteq> None) rs) < length rs"
  by (rule length_filter_less) (auto simp del: not_None_eq)

text \<open>
  Claim C9: fields without a rating that are otherwise well-formed pass the
  validation and are stored without a rating. In a recomputation for a stored tour
  that is not secret, a review without a rating is counted in \<^verbatim>\<open>ratingsQuantity\<close>,
  and \<^verbatim>\<open>ratingsAverage\<close> is what the write stores for the average of the reviews
  that have a rating, which are fewer than \<^verbatim>\<open>ratingsQuantity\<close>; when none of the
  reviews has a rating, the average is null and the tour stores 0.
\<close>

theorem unrated_counted_not_averaged:
  "(f_review inp = Castable txt \<and> txt \<noteq> [] \<and> f_tour inp = Castable t \<and>
    f_user inp = Castable u \<and> f_rating inp = Absent \<and>
    \<not> duplicate_key \<lparr>rid = oid, review = txt, rating = None, tour = t, user = u\<rparr> (reviews sc)
    \<longrightarrow> fst (save io oid inp sc)
          = Inr \<lparr>rid = oid, review = txt, rating = None, tour = t, user = u\<rparr> \<and>
        reviews (snd (save io oid inp sc))
          = reviews sc @ [\<lparr>rid = oid, review = txt, rating = None, tour = t, user = u\<rparr>]) \<and>
   (tours s t = Some d \<and> \<not> secretTour d \<and> r \<in> set (matching t s) \<and> rating r = None
    \<longrightarrow> (\<exists>d'. tours (snd (calcAverageRatings NoFault t s)) t = Some d' \<and>
           ratingsQuantity d' = length (matching t s) \<and>
           ratingsAverage d' =
             set_ratingsAverage (avg (map rating (filter (\<lambda>r. rating r \<noteq> None) (matching t s)))) \<and>
           length (filter (\<lambda>r. rating r \<noteq> None) (matching t s)) < ratingsQuantity d' \<and>
           (filter (\<lambda>r. rating r \<noteq> None) (matching t s) = [] \<longrightarrow> ratingsAverage d' = Fin 0)))"
proof (intro conjI impI)
  assume h: "f_review inp = Castable txt \<and> txt \<noteq> [] \<and> f_tour inp = Castable t \<and>
    f_user inp = Castable u \<and> f_rating inp = Absent \<and>
    \<not> duplicate_key \<lparr>rid = oid, review = txt, rating = None, tour = t, user = u\<rparr> (reviews sc)"
  then show ok: "fst (save io oid inp sc)
          = Inr \<lparr>rid = oid, review = txt, rating = None, tour = t, user = u\<rparr>"
    by (simp add: save_Inr save_unrated)
  show "reviews (snd (save io oid inp sc))
          = reviews sc @ [\<lparr>rid = oid, review = txt, rating = None, tour = t, user = u\<rparr>]"
    by (simp add: save_Inr_state [OF ok] post_save_reviews)
next
  assume h: "tours s t = Some d \<and> \<not> secretTour d \<and> r \<in> set (matching t s) \<and> rating r = None"
  then have ne: "matching t s \<noteq> []" by auto
  from h have lt: "length (filter (\<lambda>r. rating r \<noteq> None) (matching t s)) < length (matching t s)"
    by (blast intro: filter_rated_less)
  from h ne have "tours (snd (calcAverageRatings NoFault t s)) t =
      Some (d\<lparr>ratingsQuantity := length (matching t s),
              ratingsAverage := set_ratingsAverage (avg (map rating (matching t s)))\<rparr>)"
    by (simp add: calc_tours_nonempty update_visible)
  moreover have "filter (\<lambda>r. rating r \<noteq> None) (matching t s) = [] \<longrightarrow>
      set_ratingsAverage (avg (map rating (matching t s))) = Fin 0"
    by (simp add: avg_unrated set_null del: not_None_eq)
  ultimately show "\<exists>d'. tours (snd (calcAverageRatings NoFault t s)) t = Some d' \<and>
           ratingsQuantity d' = length (matching t s) \<and>
           ratingsAverage d' =
             set_ratingsAverage (avg (map rating (filter (\<lambda>r. rating r \<noteq> None) (matching t s)))) \<and>
           length (filter (\<lambda>r. rating r \<noteq> None) (matching t s)) < ratingsQuantity d' \<and>
           (filter (\<lambda>r. rating r \<noteq> None) (matching t s) = [] \<longrightarrow> ratingsAverage d' = Fin 0)"
    using lt by (simp add: avg_rated del: not_None_eq)
qed

text \<open>
  Claim C9 at a create without a rating: beside the reviews rated 5, 5 and 4 it
  makes the quantity 4 and leaves the average that of the three ratings; as the
  first review of a tour it makes the quantity 1 and the average 0.
\<close>

theorem unrated_counted_not_averaged_witness:
  "fst (save NoFault 13 (fields ''Nice'' None 1 103) db_554) = Inr doc_unrated \<and>
   reviews (snd (save NoFault 13 (fields ''Nice'' None 1 103) db_554))
     = reviews db_554 @ [doc_unrated] \<and>
   tours (snd (save NoFault 13 (fields ''Nice'' None 1 103) db_554)) 1
     = Some \<lparr>ratingsAverage = rd (47 / 10), ratingsQuantity = 4, secretTour = False\<rparr> \<and>
   tours (snd (save NoFault 13 (fields ''Nice'' None 1 103) db_empty)) 1
     = Some \<lparr>ratingsAverage = Fin 0, ratingsQuantity = 1, secretTour = False\<rparr>"
proof -
  have f: "f_review (fields ''Nice'' None 1 103) = Castable ''Nice'' \<and> ''Nice'' \<noteq> [] \<and>
      f_tour (fields ''Nice'' None 1 103) = Castable 1 \<and>
      f_user (fields ''Nice'' None 1 103) = Castable 103 \<and>
      f_rating (fields ''Nice'' None 1 103) = Absent"
    by (simp add: fields_def)
  have u: "doc_unrated = \<lparr>rid = 13, review = ''Nice'', rating = None, tour = 1, user = 103\<rparr>"
    by (simp add: doc_unrated_def)
  have n: "\<not> duplicate_key doc_unrated (reviews db_554)"
    "\<not> duplicate_key doc_unrated (reviews db_empty)"
    by (simp_all add: duplicate_key_def same_pair_def db_554_def db_empty_def doc_unrated_def)
  note w = unrated_counted_not_averaged [of "fields ''Nice'' None 1 103" "''Nice''" 1 103 13 _
      NoFault _ default_tour doc_unrated, folded u]
  from w [of db_554] f n
  have a: "fst (save NoFault 13 (fields ''Nice'' None 1 103) db_554) = Inr doc_unrated"
    and b: "reviews (snd (save NoFault 13 (fields ''Nice'' None 1 103) db_554))
      = reviews db_554 @ [doc_unrated]"
    by blast+
  from w [of db_empty] f n
  have a': "fst (save NoFault 13 (fields ''Nice'' None 1 103) db_empty) = Inr doc_unrated"
    by blast
  have td: "tour doc_unrated = 1" by (simp add: doc_unrated_def)
  have t: "tours (snd (save NoFault 13 (fields ''Nice'' None 1 103) db_554)) =
      tours (snd (calcAverageRatings NoFault 1 (db_554\<lparr>reviews := reviews db_554 @ [doc_unrated]\<rparr>)))"
    "tours (snd (save NoFault 13 (fields ''Nice'' None 1 103) db_empty)) =
      tours (snd (calcAverageRatings NoFault 1 (db_empty\<lparr>reviews := reviews db_empty @ [doc_unrated]\<rparr>)))"
    unfolding save_Inr_state [OF a] save_Inr_state [OF a'] post_save_tours td by (rule refl)+
  have g: "tours (db_554\<lparr>reviews := reviews db_554 @ [doc_unrated]\<rparr>) 1 = Some default_tour \<and>
      \<not> secretTour default_tour \<and>
      doc_unrated \<in> set (matching 1 (db_554\<lparr>reviews := reviews db_554 @ [doc_unrated]\<rparr>)) \<and>
      rating doc_unrated = None"
    by (simp add: db_554_def default_tour_def matching_def doc_unrated_def)
  have g': "tours (db_empty\<lparr>reviews := reviews db_empty @ [doc_unrated]\<rparr>) 1 = Some default_tour \<and>
      \<not> secretTour default_tour \<and>
      doc_unrated \<in> set (matching 1 (db_empty\<lparr>reviews := reviews db_empty @ [doc_unrated]\<rparr>)) \<and>
      rating doc_unrated = None"
    by (simp add: db_empty_def default_tour_def matching_def doc_unrated_def)
  have l: "length (matching 1 (db_554\<lparr>reviews := reviews db_554 @ [doc_unrated]\<rparr>)) = 4"
    "length (matching 1 (db_empty\<lparr>reviews := reviews db_empty @ [doc_unrated]\<rparr>)) = 1"
    by (simp_all add: db_554_def db_empty_def matching_def doc_unrated_def)
  have v: "set_ratingsAverage (avg (map rating (filter (\<lambda>r. rating r \<noteq> None)
      (matching 1 (db_554\<lparr>reviews := reviews db_554 @ [doc_unrated]\<rparr>))))) = rd (47 / 10)"
    by code_simp
  have e: "filter (\<lambda>r. rating r \<noteq> None)
      (matching 1 (db_empty\<lparr>reviews := reviews db_empty @ [doc_unrated]\<rparr>)) = []"
    by (simp add: db_empty_def matching_def doc_unrated_def)
  from w [of _ "db_554\<lparr>reviews := reviews db_554 @ [doc_unrated]\<rparr>"] g obtain d' where
    "tours (snd (calcAverageRatings NoFault 1 (db_554\<lparr>reviews := reviews db_554 @ [doc_unrated]\<rparr>))) 1
       = Some d'"
    "ratingsQuantity d' = length (matching 1 (db_554\<lparr>reviews := reviews db_554 @ [doc_unrated]\<rparr>))"
    "ratingsAverage d' = set_ratingsAverage (avg (map rating (filter (\<lambda>r. rating r \<noteq> None)
      (matching 1 (db_554\<lparr>reviews := reviews db_554 @ [doc_unrated]\<rparr>)))))"
    by blast
  moreover have "secretTour d' = False" if "tours (snd (calcAverageRatings NoFault 1
      (db_554\<lparr>reviews := reviews db_554 @ [doc_unrated]\<rparr>))) 1 = Some d'" for d'
    using that by (auto simp: calcAverageRatings_def aggregate_def Tour_findByIdAndUpdate_def
        db_554_def default_tour_def doc_unrated_def split: if_splits)
  ultimately have c: "tours (snd (save NoFault 13 (fields ''Nice'' None 1 103) db_554)) 1
     = Some \<lparr>ratingsAverage = rd (47 / 10), ratingsQuantity = 4, secretTour = False\<rparr>"
    unfolding t l v by (cases d') simp
  from w [of _ "db_empty\<lparr>reviews := reviews db_empty @ [doc_unrated]\<rparr>"] g' e obtain d' where
    "tours (snd (calcAverageRatings NoFault 1 (db_empty\<lparr>reviews := reviews db_empty @ [doc_unrated]\<rparr>))) 1
       = Some d'"
    "ratingsQuantity d' = length (matching 1 (db_empty\<lparr>reviews := reviews db_empty @ [doc_unrated]\<rparr>))"
    "ratingsAverage d' = Fin 0"
    by blast
  moreover have "secretTour d' = False" if "tours (snd (calcAverageRatings NoFault 1
      (db_empty\<lparr>reviews := reviews db_empty @ [doc_unrated]\<rparr>))) 1 = Some d'" for d'
    using that by (auto simp: calcAverageRatings_def aggregate_def Tour_findByIdAndUpdate_def
        db_empty_def default_tour_def doc_unrated_def split: if_splits)
  ultimately have c': "tours (snd (save NoFault 13 (fields ''Nice'' None 1 103) db_empty)) 1
     = Some \<lparr>ratingsAverage = Fin 0, ratingsQuantity = 1, secretTour = False\<rparr>"
    unfolding t l by (cases d') simp
  from a b c c' show ?thesis by blast
qed

subsection \<open>Secret tours\<close>

lemma post_save_secret:
  "tours s k = Some d \<Longrightarrow> secretTour d \<Longrightarrow> tours (post_save io doc s) k = Some d"
  by (simp add: post_save_tours calc_secret)

lemma save_secret:
  assumes "tours s k = Some d" and "secretTour d"
  shows "tours (snd (save io oid inp s)) k = Some d"
proof (cases "fst (save io oid inp s)")
  case (Inl e)
  then show ?thesis using assms by (simp add: save_Inl_state)
next
  case (Inr doc)
  then show ?thesis using assms by (simp add: save_Inr_state post_save_secret)
qed

lemma findOneAnd_secret:
  assumes "tours s k = Some d" and "secretTour d"
  shows "tours (snd (findOneAnd io f query s)) k = Some d"
proof (cases "query (reviews s)")
  case (Inl e)
  then show ?thesis using assms by (simp add: findOneAnd_Inl)
next
  case (Inr rs')
  show ?thesis
  proof (cases "pre_findOneAnd f s")
    case None
    then show ?thesis
      using Inr assms by (simp add: findOneAnd_def post_findOneAnd_def)
  next
    case (Some r)
    then show ?thesis using Inr assms by (simp add: findOneAnd_Some calc_secret)
  qed
qed

lemma apply_mutation_secret:
  "tours s k = Some d \<Longrightarrow> secretTour d \<Longrightarrow> tours (apply_mutation m s) k = Some d"
  by (cases m) (simp_all add: save_secret findOneAndUpdate_def findOneAndDelete_def findOneAnd_secret)

lemma run_secret:
  "tours s k = Some d \<Longrightarrow> secretTour d \<Longrightarrow> tours (run ms s) k = Some d"
  unfolding run_def by (induction ms arbitrary: s) (simp_all add: apply_mutation_secret)

text \<open>
  Claim C10: the write of the recomputation never reaches a secret tour, since the
  hook \<^verbatim>\<open>tourSchema.pre(/^find/)\<close> restricts the query to tours whose \<^verbatim>\<open>secretTour\<close>
  is not true. So a secret tour keeps its document, and with it its
  \<^verbatim>\<open>ratingsQuantity\<close> and \<^verbatim>\<open>ratingsAverage\<close>, through a recomputation, a create, an
  update, a delete, and any sequence of such mutations.
\<close>

theorem secret_tour_summary_frozen:
  assumes "tours s k = Some d" and "secretTour d"
  shows "tours (snd (calcAverageRatings io t s)) k = Some d \<and>
         tours (snd (save io oid inp s)) k = Some d \<and>
         tours (snd (findOneAndUpdate io f u s)) k = Some d \<and>
         tours (snd (findOneAndDelete io f s)) k = Some d \<and>
         tours (run ms s) k = Some d"
  using assms
  by (simp add: calc_secret save_secret findOneAndUpdate_def findOneAndDelete_def
      findOneAnd_secret run_secret)

text \<open>
  Claim C10 at a secret tour that is reviewed twice, with an update and a delete:
  four recomputations of the tour were started, one review rated 5 is left, and the
  summary still says three reviews with an average of 4.
\<close>

theorem secret_tour_summary_frozen_witness:
  "tours db_secret 2 = Some secret_summary \<and> secretTour secret_summary \<and>
   map rating (reviews (run rate_secret db_secret)) = [Some (Fin 5)] \<and>
   recomputes (run rate_secret db_secret) = [2, 2, 2, 2] \<and>
   tours (run rate_secret db_secret) 2 = Some secret_summary"
proof -
  have a: "tours db_secret 2 = Some secret_summary" by (simp add: db_secret_def secret_summary_def)
  have b: "secretTour secret_summary" by (simp add: secret_summary_def)
  have c: "map rating (reviews (run rate_secret db_secret)) = [Some (Fin 5)] \<and>
      recomputes (run rate_secret db_secret) = [2, 2, 2, 2]"
    by code_simp
  from secret_tour_summary_frozen [OF a b, of NoFault 2 20 "fields ''Hidden gem'' (Some (Fin 1)) 2 100"
      "\<lambda>r. rid r = 20" new_text rate_secret]
  have "tours (run rate_secret db_secret) 2 = Some secret_summary" by blast
  with a b c show ?thesis by blast
qed

subsection \<open>One review for a tour and a user\<close>

lemma set_delete_first: "set (delete_first f rs) \<subseteq> set rs"
  by (induction rs) auto

lemma distinct_delete_first:
  "distinct (map key rs) \<Longrightarrow> distinct (map key (delete_first f rs))"
  using set_delete_first [of f] by (induction rs) (auto simp: image_iff)

lemma set_update_first:
  "find f rs = Some d \<Longrightarrow> set (update_first f g rs) \<subseteq> insert (g d) (set (delete_first f rs))"
  by (induction rs) (auto split: if_splits)

lemma distinct_update_first:
  assumes "find f rs = Some d" and "distinct (map key rs)"
    and "key (g d) \<notin> key ` set (delete_first f rs)"
  shows "distinct (map key (update_first f g rs))"
  using assms
proof (induction rs)
  case Nil
  then show ?case by simp
next
  case (Cons x xs)
  show ?case
  proof (cases "f x")
    case True
    with Cons.prems show ?thesis by simp
  next
    case False
    with Cons.prems have fd: "find f xs = Some d" and dx: "distinct (map key xs)"
      and nx: "key x \<notin> key ` set xs" and kg: "key (g d) \<noteq> key x"
      and kd: "key (g d) \<notin> key ` set (delete_first f xs)"
      by auto
    have "key x \<notin> key ` set (update_first f g xs)"
    proof
      assume "key x \<in> key ` set (update_first f g xs)"
      then obtain y where y: "y \<in> set (update_first f g xs)" "key x = key y" by auto
      with set_update_first [OF fd, of g] have "y = g d \<or> y \<in> set (delete_first f xs)" by auto
      then show False
      proof
        assume "y = g d" with y kg show False by simp
      next
        assume "y \<in> set (delete_first f xs)"
        with set_delete_first [of f xs] have "y \<in> set xs" by auto
        with y nx show False by auto
      qed
    qed
    with Cons.IH [OF fd dx kd] False show ?thesis by simp
  qed
qed

lemma list_ex_same_pair:
  "list_ex (same_pair d) rs \<longleftrightarrow> (tour d, user d) \<in> set (pairs rs)"
  by (induction rs) (auto simp: same_pair_def pairs_def)

lemma duplicate_key_pair:
  "(tour d, user d) \<in> set (pairs rs) \<Longrightarrow> duplicate_key d rs"
  by (induction rs) (auto simp: duplicate_key_def same_pair_def pairs_def)

lemma save_distinct:
  assumes "distinct (pairs (reviews s))"
  shows "distinct (pairs (reviews (snd (save io oid inp s))))"
proof (cases "fst (save io oid inp s)")
  case (Inl e)
  then show ?thesis using assms by (simp add: save_Inl_state)
next
  case (Inr doc)
  then have "\<not> duplicate_key doc (reviews s)" by (simp add: save_Inr)
  then have "(tour doc, user doc) \<notin> set (pairs (reviews s))"
    using duplicate_key_pair by blast
  then show ?thesis
    using Inr assms by (simp add: save_Inr_state post_save_reviews pairs_def)
qed

lemma exec_update_distinct:
  assumes "distinct (pairs rs)" and "exec_update f u rs = Inr rs'"
  shows "distinct (pairs rs')"
proof (cases "find f rs")
  case None
  with assms show ?thesis by (simp add: exec_update_def)
next
  case (Some d)
  with assms(2) have n: "\<not> list_ex (same_pair (apply_update u d)) (delete_first f rs)"
    and r: "rs' = update_first f (apply_update u) rs"
    by (auto simp: exec_update_def split: if_splits)
  from n have "(\<lambda>r. (tour r, user r)) (apply_update u d)
      \<notin> (\<lambda>r. (tour r, user r)) ` set (delete_first f rs)"
    by (simp add: list_ex_same_pair pairs_def)
  with Some assms(1) show ?thesis
    unfolding r pairs_def by (intro distinct_update_first) simp_all
qed

lemma apply_mutation_distinct:
  assumes "distinct (pairs (reviews s))"
  shows "distinct (pairs (reviews (apply_mutation m s)))"
proof (cases m)
  case (Create io oid inp)
  then show ?thesis using assms by (simp add: save_distinct)
next
  case (Update io f u)
  then show ?thesis
    using assms exec_update_distinct [OF assms, of f u]
    by (simp add: findOneAndUpdate_def findOneAnd_reviews split: sum.split)
next
  case (Delete io f)
  then show ?thesis
    using assms distinct_delete_first [of "\<lambda>r. (tour r, user r)" "reviews s" f]
    by (simp add: findOneAndDelete_def findOneAnd_reviews exec_delete_def pairs_def)
qed

lemma run_distinct:
  "distinct (pairs (reviews s)) \<Longrightarrow> distinct (pairs (reviews (run ms s)))"
  unfolding run_def by (induction ms arbitrary: s) (simp_all add: apply_mutation_distinct)

lemma save_duplicate:
  assumes "f_tour inp = Castable t" and "f_user inp = Castable u"
    and "(t, u) \<in> set (pairs (reviews s))"
  shows "save io oid inp s =
           (Inl (if validate inp = no_errors then DuplicateKeyError
                 else ValidationError (validate inp)), s)"
proof (cases "validate inp = no_errors")
  case False
  then show ?thesis by (simp add: save_def)
next
  case True
  with validate_to_doc [of inp oid] obtain d where d: "to_doc oid inp = Some d" by auto
  with assms have "(tour d, user d) \<in> set (pairs (reviews s))" by (simp add: to_doc_Some)
  then have "duplicate_key d (reviews s)" by (rule duplicate_key_pair)
  with True d show ?thesis by (simp add: save_def)
qed

text \<open>
  Claim C4, as stated, after the reviews of users 100 and 101 for tour 1: a second
  review of user 100 for tour 1 with an empty text fails with a ValidationError,
  not with the error of the unique index.
\<close>

theorem malformed_duplicate_counterexample:
  "(1, 100) \<in> set (pairs (reviews (run two_reviews db_empty))) \<and>
   fst (save NoFault 12 (fields [] (Some (Fin 1)) 1 100) (run two_reviews db_empty))
     = Inl (ValidationError
         (no_errors\<lparr>e_review := Some (ValidatorError ''Review cannotbe empty'')\<rparr>)) \<and>
   fst (save NoFault 12 (fields [] (Some (Fin 1)) 1 100) (run two_reviews db_empty))
     \<noteq> Inl DuplicateKeyError"
proof -
  have a: "(1, 100) \<in> set (pairs (reviews (run two_reviews db_empty)))" by code_simp
  have b: "fst (save NoFault 12 (fields [] (Some (Fin 1)) 1 100) (run two_reviews db_empty))
     = Inl (ValidationError
         (no_errors\<lparr>e_review := Some (ValidatorError ''Review cannotbe empty'')\<rparr>))"
    by (simp add: save_def validate_def no_errors_def check_review_def check_rating_def
        check_ref_def fields_def)
  from a b show ?thesis by simp
qed

text \<open>
  Claim C4, amended: in every state that review mutations reach from an empty
  review collection, no two reviews have the same tour and user. In such a state a
  create for a pair of tour and user that has a review fails and leaves the whole
  state as it is, the reviews as well as the summaries of the tours. It fails with
  the error of the unique index when its fields pass the validation, and with a
  ValidationError otherwise, since the validation runs before the insert.
\<close>

theorem one_review_per_tour_and_user:
  assumes "reviews s0 = []" and "s = run ms s0"
  shows "distinct (pairs (reviews s)) \<and>
         (\<forall>io oid inp t u.
            f_tour inp = Castable t \<and> f_user inp = Castable u \<and>
            (t, u) \<in> set (pairs (reviews s)) \<longrightarrow>
            save io oid inp s =
              (Inl (if validate inp = no_errors then DuplicateKeyError
                    else ValidationError (validate inp)), s))"
proof (rule conjI)
  from assms(1) have "distinct (pairs (reviews s0))" by (simp add: pairs_def)
  then show "distinct (pairs (reviews s))" unfolding assms(2) by (rule run_distinct)
next
  show "\<forall>io oid inp t u.
            f_tour inp = Castable t \<and> f_user inp = Castable u \<and>
            (t, u) \<in> set (pairs (reviews s)) \<longrightarrow>
            save io oid inp s =
              (Inl (if validate inp = no_errors then DuplicateKeyError
                    else ValidationError (validate inp)), s)"
    using save_duplicate by blast
qed

text \<open>
  The amended claim C4 after the reviews of users 100 and 101 for tour 1: a second,
  well-formed review of user 100 is refused by the index, and the summary stays at
  two reviews with an average of 4.
\<close>

theorem one_review_per_tour_and_user_witness:
  "reviews db_empty = [] \<and>
   pairs (reviews (run two_reviews db_empty)) = [(1, 100), (1, 101)] \<and>
   distinct (pairs (reviews (run two_reviews db_empty))) \<and>
   tours (run two_reviews db_empty) 1
     = Some \<lparr>ratingsAverage = Fin 4, ratingsQuantity = 2, secretTour = False\<rparr> \<and>
   save NoFault 12 (fields ''Again'' (Some (Fin 1)) 1 100) (run two_reviews db_empty)
     = (Inl DuplicateKeyError, run two_reviews db_empty)"
proof -
  have a: "reviews db_empty = []" by (simp add: db_empty_def)
  have p: "pairs (reviews (run two_reviews db_empty)) = [(1, 100), (1, 101)]" by code_simp
  have t: "tours (run two_reviews db_empty) 1
     = Some \<lparr>ratingsAverage = Fin 4, ratingsQuantity = 2, secretTour = False\<rparr>"
    by code_simp
  have q: "f_tour (fields ''Again'' (Some (Fin 1)) 1 100) = Castable 1 \<and>
      f_user (fields ''Again'' (Some (Fin 1)) 1 100) = Castable 100 \<and>
      (1, 100) \<in> set (pairs (reviews (run two_reviews db_empty)))"
    unfolding p by (simp add: fields_def)
  have v: "validate (fields ''Again'' (Some (Fin 1)) 1 100) = no_errors"
    by (simp add: validate_def no_errors_def check_review_def check_rating_def check_ref_def
        fields_def)
  note w = one_review_per_tour_and_user [OF a refl, of two_reviews]
  from w have d: "distinct (pairs (reviews (run two_reviews db_empty)))" by blast
  from w q have "save NoFault 12 (fields ''Again'' (Some (Fin 1)) 1 100) (run two_reviews db_empty) =
      (Inl (if validate (fields ''Again'' (Some (Fin 1)) 1 100) = no_errors then DuplicateKeyError
            else ValidationError (validate (fields ''Again'' (Some (Fin 1)) 1 100))),
       run two_reviews db_empty)"
    by blast
  then have "save NoFault 12 (fields ''Again'' (Some (Fin 1)) 1 100) (run two_reviews db_empty)
      = (Inl DuplicateKeyError, run two_reviews db_empty)"
    unfolding v by simp
  with a p d t show ?thesis by blast
qed

end
